theory Spec2Isabelle
  imports Complex_Main
begin

section \<open>Data model (types.ts)\<close>

text \<open>
  The tile game of \<^verbatim>\<open>App.tsx\<close>: a grid of numbered tiles, a target, a selection of tile
  ids, a score, and two modes. JavaScript numbers that only ever hold integers (rows,
  columns, values, score, target, seconds) are \<^typ>\<open>int\<close>. The field names \<^verbatim>\<open>id\<close> and
  \<^verbatim>\<open>value\<close> of \<^verbatim>\<open>BlockData\<close> are written \<open>id_b\<close> and \<open>value_b\<close>.
\<close>

datatype GameMode = Classic | Time

record BlockData =
  id_b :: string
  value_b :: int
  row :: int
  col :: int

definition GRID_COLS :: int where "GRID_COLS = 7"
definition GRID_ROWS :: int where "GRID_ROWS = 10"
definition INITIAL_ROWS :: int where "INITIAL_ROWS = 4"
definition MAX_VALUE :: int where "MAX_VALUE = 9"
definition TIME_LIMIT :: int where "TIME_LIMIT = 10"

text \<open>
  The high score is the one number of the program that can be \<^verbatim>\<open>NaN\<close> (it is read back
  from storage through \<^verbatim>\<open>parseInt\<close>), so it has a type of its own.
\<close>

datatype number = NaN | Num int

text \<open>
  The component state: the \<^verbatim>\<open>useState\<close> cells of \<^verbatim>\<open>App\<close> that the game logic reads or
  writes. \<^verbatim>\<open>mode\<close> is \<^verbatim>\<open>GameMode | null\<close>.
\<close>

record GameState =
  mode :: "GameMode option"
  grid :: "BlockData list"
  target :: int
  score :: int
  selectedIds :: "string list"
  gameOver :: bool
  timeLeft :: int
  isPaused :: bool
  highScore :: number

definition initialState :: GameState where
  "initialState =
     \<lparr>mode = None, grid = [], target = 0, score = 0, selectedIds = [], gameOver = False,
      timeLeft = TIME_LIMIT, isPaused = False, highScore = Num 0\<rparr>"

section \<open>The random source\<close>

text \<open>
  \<^verbatim>\<open>Math.random()\<close> returns a number \<open>r\<close> with \<open>0 \<le> r < 1\<close>; the type \<open>random01\<close> holds
  exactly these. Products with it are taken in the reals, where JavaScript rounds to a
  double. Every operation takes the random outcomes it consumes as arguments.
  \<^verbatim>\<open>generateId\<close> turns one such number into a short base-36 string; the model takes the
  resulting string as drawn. A tile draw is the id and the number its value is made from,
  and a row draw gives one tile draw per column index.
\<close>

typedef random01 = "{r::real. 0 \<le> r \<and> r < 1}"
  morphisms randomValue Abs_random01
  by (rule exI [of _ 0]) simp

setup_lifting type_definition_random01

lift_definition randomHalf :: random01 is "1 / 2 :: real"
  by simp

type_synonym tileDraw = "string \<times> random01"
type_synonym rowDraw = "int \<Rightarrow> tileDraw"

section \<open>Operations (App.tsx)\<close>

text \<open>
  \<^verbatim>\<open>createRow(rowIndex)\<close>: \<^verbatim>\<open>Array.from({ length: GRID_COLS }, (_, colIndex) => ...)\<close> with
  value \<^verbatim>\<open>Math.floor(Math.random() * MAX_VALUE) + 1\<close>.
\<close>

definition createRow :: "rowDraw \<Rightarrow> int \<Rightarrow> BlockData list" where
  "createRow rnd rowIndex =
     map (\<lambda>colIndex.
            \<lparr>id_b = fst (rnd colIndex),
             value_b = \<lfloor>randomValue (snd (rnd colIndex)) * real_of_int MAX_VALUE\<rfloor> + 1,
             row = rowIndex,
             col = colIndex\<rparr>)
         [0..GRID_COLS - 1]"

text \<open>
  \<^verbatim>\<open>generateTarget\<close>: \<^verbatim>\<open>values[Math.floor(Math.random() * values.length)]\<close>. An index outside
  the array would read \<^verbatim>\<open>undefined\<close>; the model then keeps the index visible by returning
  \<open>None\<close>, and \<open>generateTarget\<close> is shown below never to do so.
\<close>

definition targetValues :: "int list" where
  "targetValues = [10, 12, 15, 18, 20, 25]"

definition pickTarget :: "random01 \<Rightarrow> int option" where
  "pickTarget r =
     (let i = \<lfloor>randomValue r * real (length targetValues)\<rfloor>
      in if 0 \<le> i \<and> i < int (length targetValues) then Some (targetValues ! nat i) else None)"

definition generateTarget :: "random01 \<Rightarrow> GameState \<Rightarrow> GameState" where
  "generateTarget r s = (case pickTarget r of Some t \<Rightarrow> s\<lparr>target := t\<rparr> | None \<Rightarrow> s)"

text \<open>
  \<^verbatim>\<open>startGame(selectedMode)\<close>: the loop pushes \<^verbatim>\<open>createRow(GRID_ROWS - 1 - i)\<close> for
  \<open>i = 0, ..., INITIAL_ROWS - 1\<close>; \<open>rnds i\<close> is the row draw of iteration \<open>i\<close>.
\<close>

definition startGame :: "(int \<Rightarrow> rowDraw) \<Rightarrow> random01 \<Rightarrow> GameMode \<Rightarrow> GameState \<Rightarrow> GameState" where
  "startGame rnds rT selectedMode s =
     generateTarget rT
       (s\<lparr>mode := Some selectedMode,
          grid := concat (map (\<lambda>i. createRow (rnds i) (GRID_ROWS - 1 - i)) [0..INITIAL_ROWS - 1]),
          score := 0,
          gameOver := False,
          selectedIds := [],
          timeLeft := TIME_LIMIT,
          isPaused := False\<rparr>)"

text \<open>
  \<^verbatim>\<open>addRow()\<close>: the grid updater (game over when a block is in row 0, else shift every
  block up and append a new bottom row), then, outside the updater, the reset of the
  timer in time mode. Here and below an operation is the net effect of the state updates
  it queues, each updater run once and in the order queued.
\<close>

definition shiftUp :: "BlockData \<Rightarrow> BlockData" where
  "shiftUp b = b\<lparr>row := row b - 1\<rparr>"

definition addRow :: "rowDraw \<Rightarrow> GameState \<Rightarrow> GameState" where
  "addRow rnd s =
     (let prev = grid s;
          isFull = list_ex (\<lambda>b. row b = 0) prev;
          s1 = (if isFull then s\<lparr>gameOver := True\<rparr>
                else s\<lparr>grid := map shiftUp prev @ createRow rnd (GRID_ROWS - 1)\<rparr>)
      in if mode s = Some Time then s1\<lparr>timeLeft := TIME_LIMIT\<rparr> else s1)"

text \<open>
  The timer: the interval exists only while \<^verbatim>\<open>mode === 'time' && !gameOver && !isPaused\<close>;
  its callback is \<open>tick\<close>, and \<open>advanceTime\<close> is one second passing.
\<close>

definition tick :: "rowDraw \<Rightarrow> GameState \<Rightarrow> GameState" where
  "tick rnd s =
     (if timeLeft s \<le> 1 then (addRow rnd s)\<lparr>timeLeft := TIME_LIMIT\<rparr>
      else s\<lparr>timeLeft := timeLeft s - 1\<rparr>)"

definition advanceTime :: "rowDraw \<Rightarrow> GameState \<Rightarrow> GameState" where
  "advanceTime rnd s =
     (if mode s = Some Time \<and> \<not> gameOver s \<and> \<not> isPaused s then tick rnd s else s)"

text \<open>\<^verbatim>\<open>handleBlockClick(id)\<close>, the toggle of a tile id in the selection.\<close>

definition handleBlockClick :: "string \<Rightarrow> GameState \<Rightarrow> GameState" where
  "handleBlockClick i s =
     (if gameOver s \<or> isPaused s then s
      else if i \<in> set (selectedIds s)
           then s\<lparr>selectedIds := filter (\<lambda>j. j \<noteq> i) (selectedIds s)\<rparr>
           else s\<lparr>selectedIds := selectedIds s @ [i]\<rparr>)"

text \<open>
  Selection evaluation, the effect that checks the sum: \<open>currentSum\<close> is the filter and
  reduce over the grid, \<open>checkSum\<close> the effect body with its state updates in the order
  queued; \<open>clearSelected\<close> is the first four of the success branch (score, grid,
  selection, target), before the action that depends on the mode.
\<close>

definition currentSum :: "GameState \<Rightarrow> int" where
  "currentSum s =
     foldl (\<lambda>sum b. sum + value_b b) 0 (filter (\<lambda>b. id_b b \<in> set (selectedIds s)) (grid s))"

definition clearSelected :: "random01 \<Rightarrow> GameState \<Rightarrow> GameState" where
  "clearSelected rT s =
     (let s1 = s\<lparr>score := score s + int (length (selectedIds s)) * 10\<rparr>;
          s2 = s1\<lparr>grid := filter (\<lambda>b. id_b b \<notin> set (selectedIds s)) (grid s1)\<rparr>;
          s3 = s2\<lparr>selectedIds := []\<rparr>
      in generateTarget rT s3)"

definition checkSum :: "random01 \<Rightarrow> rowDraw \<Rightarrow> GameState \<Rightarrow> GameState" where
  "checkSum rT rnd s =
     (if currentSum s = target s then
        (let s4 = clearSelected rT s
         in if mode s = Some Classic then addRow rnd s4
            else if mode s = Some Time then s4\<lparr>timeLeft := TIME_LIMIT\<rparr>
            else s4)
      else if currentSum s > target s then s\<lparr>selectedIds := []\<rparr>
      else s)"

text \<open>
  The stored high score: \<^verbatim>\<open>localStorage.getItem\<close> gives \<^verbatim>\<open>null\<close> (here \<open>None\<close>) or a string, and
  \<^verbatim>\<open>if (saved) setHighScore(parseInt(saved))\<close> skips \<^verbatim>\<open>null\<close> and the empty string.
  \<open>parseInt\<close> is the built-in with no radix given: leading white space is dropped, then a
  sign, then a \<^verbatim>\<open>0x\<close> prefix selects radix 16, and the longest run of digits of the radix
  is the number; no digit gives \<^verbatim>\<open>NaN\<close>. Characters are 8-bit, so white space beyond
  \<^verbatim>\<open>U+00A0\<close> is not represented, and the number is exact where JavaScript rounds
  integers above \<open>2^53\<close>.
\<close>

definition isWhiteSpace :: "char \<Rightarrow> bool" where
  "isWhiteSpace c = (of_char c \<in> set [9, 10, 11, 12, 13, 32, 160 :: nat])"

definition digitValue :: "char \<Rightarrow> int option" where
  "digitValue c =
     (let n = of_char c :: int
      in if 48 \<le> n \<and> n \<le> 57 then Some (n - 48)
         else if 97 \<le> n \<and> n \<le> 122 then Some (n - 87)
         else if 65 \<le> n \<and> n \<le> 90 then Some (n - 55)
         else None)"

definition isRadixDigit :: "int \<Rightarrow> char \<Rightarrow> bool" where
  "isRadixDigit R c = (case digitValue c of Some d \<Rightarrow> d < R | None \<Rightarrow> False)"

definition parseInt :: "string \<Rightarrow> number" where
  "parseInt str =
     (let s0 = dropWhile isWhiteSpace str;
          negative = (take 1 s0 = ''-'');
          s1 = (if take 1 s0 = ''+'' \<or> take 1 s0 = ''-'' then drop 1 s0 else s0);
          hex = (take 2 s1 = ''0x'' \<or> take 2 s1 = ''0X'');
          R = (if hex then 16 else 10);
          s2 = (if hex then drop 2 s1 else s1);
          Z = takeWhile (isRadixDigit R) s2;
          n = foldl (\<lambda>a c. case digitValue c of Some d \<Rightarrow> a * R + d | None \<Rightarrow> a) 0 Z
      in if Z = [] then NaN else Num (if negative then - n else n))"

definition loadHighScore :: "string option \<Rightarrow> GameState \<Rightarrow> GameState" where
  "loadHighScore saved s =
     (case saved of
        None \<Rightarrow> s
      | Some v \<Rightarrow> if v = [] then s else s\<lparr>highScore := parseInt v\<rparr>)"

text \<open>
  The effect that updates the high score: \<^verbatim>\<open>if (score > highScore)\<close> stores the score as
  the high score and writes \<^verbatim>\<open>score.toString()\<close> under the storage key. A comparison with
  \<^verbatim>\<open>NaN\<close> is false. The stored value (\<open>None\<close> when the key is absent) is passed along
  with the state. The effect runs after every render in which the score or the high
  score has changed, so after the load above it runs on the loaded value.
\<close>

fun digitsOf :: "nat \<Rightarrow> string" where
  "digitsOf n =
     (if n < 10 then [''0123456789'' ! n]
      else digitsOf (n div 10) @ [''0123456789'' ! (n mod 10)])"

declare digitsOf.simps [simp del]

definition toString :: "int \<Rightarrow> string" where
  "toString n = (if n < 0 then CHR ''-'' # digitsOf (nat (- n)) else digitsOf (nat n))"

definition updateHighScore :: "string option \<Rightarrow> GameState \<Rightarrow> string option \<times> GameState" where
  "updateHighScore stored s =
     (case highScore s of
        NaN \<Rightarrow> (stored, s)
      | Num h \<Rightarrow>
          if score s > h then (Some (toString (score s)), s\<lparr>highScore := Num (score s)\<rparr>)
          else (stored, s))"

section \<open>The grid invariant, stated\<close>

text \<open>
  No two tiles of the grid have the same (row, column), and every row index is between 0
  and \<open>GRID_ROWS - 1\<close>.
\<close>

definition gridInvariant :: "BlockData list \<Rightarrow> bool" where
  "gridInvariant g =
     (distinct (map (\<lambda>b. (row b, col b)) g)
      \<and> list_all (\<lambda>b. 0 \<le> row b \<and> row b \<le> GRID_ROWS - 1) g)"

section \<open>Concrete states and draws\<close>

definition exampleDraw :: rowDraw where
  "exampleDraw c = (''n'', randomHalf)"

definition bottomTile :: BlockData where
  "bottomTile = \<lparr>id_b = ''a'', value_b = 4, row = 9, col = 0\<rparr>"

definition topTile :: BlockData where
  "topTile = \<lparr>id_b = ''t'', value_b = 3, row = 0, col = 2\<rparr>"

definition lowState :: GameState where
  "lowState =
     \<lparr>mode = Some Classic, grid = [bottomTile], target = 10, score = 0, selectedIds = [],
      gameOver = False, timeLeft = TIME_LIMIT, isPaused = False, highScore = Num 0\<rparr>"

definition fullTimeState :: GameState where
  "fullTimeState =
     \<lparr>mode = Some Time, grid = [topTile], target = 10, score = 0, selectedIds = [],
      gameOver = False, timeLeft = 1, isPaused = False, highScore = Num 0\<rparr>"

definition fullClassicState :: GameState where
  "fullClassicState = fullTimeState\<lparr>mode := Some Classic, timeLeft := TIME_LIMIT\<rparr>"

definition exampleGrid :: "BlockData list" where
  "exampleGrid =
     [\<lparr>id_b = ''a'', value_b = 4, row = 9, col = 0\<rparr>,
      \<lparr>id_b = ''b'', value_b = 6, row = 9, col = 1\<rparr>,
      \<lparr>id_b = ''c'', value_b = 9, row = 9, col = 2\<rparr>]"

definition exampleState :: GameState where
  "exampleState =
     \<lparr>mode = Some Classic, grid = exampleGrid, target = 10, score = 0,
      selectedIds = [''a'', ''b''], gameOver = False, timeLeft = TIME_LIMIT,
      isPaused = False, highScore = Num 0\<rparr>"

definition exampleTimeState :: GameState where
  "exampleTimeState = exampleState\<lparr>mode := Some Time, timeLeft := 3\<rparr>"

definition twinState :: GameState where
  "twinState =
     \<lparr>mode = Some Time,
      grid = [\<lparr>id_b = ''d'', value_b = 5, row = 9, col = 0\<rparr>,
              \<lparr>id_b = ''d'', value_b = 5, row = 9, col = 1\<rparr>],
      target = 10, score = 0, selectedIds = [''d'', ''z''], gameOver = False,
      timeLeft = TIME_LIMIT, isPaused = False, highScore = Num 0\<rparr>"

definition staleState :: GameState where
  "staleState = exampleState\<lparr>selectedIds := [''a'', ''z'', ''b'']\<rparr>"

definition lowTimeState :: GameState where
  "lowTimeState = lowState\<lparr>mode := Some Time\<rparr>"

definition exampleRows :: "int \<Rightarrow> rowDraw" where
  "exampleRows i = exampleDraw"

section \<open>Properties of row creation and row injection\<close>

lemma randomValue_range: "0 \<le> randomValue r \<and> randomValue r < 1"
  using randomValue [of r] by simp

lemma random_floor_range:
  assumes "0 < n"
  shows "0 \<le> \<lfloor>randomValue r * real_of_int n\<rfloor> \<and> \<lfloor>randomValue r * real_of_int n\<rfloor> < n"
proof -
  have r: "0 \<le> randomValue r" "randomValue r < 1"
    using randomValue_range by simp_all
  have pos: "0 < real_of_int n"
    using assms by simp
  have "0 \<le> randomValue r * real_of_int n"
    using r(1) pos by simp
  then have lo: "0 \<le> \<lfloor>randomValue r * real_of_int n\<rfloor>"
    by simp
  have "randomValue r * real_of_int n < 1 * real_of_int n"
    using r(2) pos by (rule mult_strict_right_mono)
  then have "randomValue r * real_of_int n < real_of_int n"
    by simp
  then have hi: "\<lfloor>randomValue r * real_of_int n\<rfloor> < n"
    by (simp add: floor_less_iff)
  from lo hi show ?thesis ..
qed

lemma column_indices: "[0..GRID_COLS - 1] = [0, 1, 2, 3, 4, 5, 6]"
  by (simp add: GRID_COLS_def upto_rec1)

lemma length_createRow: "length (createRow rnd k) = 7"
  by (simp add: createRow_def column_indices)

lemma cols_createRow: "map col (createRow rnd k) = [0, 1, 2, 3, 4, 5, 6]"
  by (simp add: createRow_def column_indices)

lemma createRow_tiles:
  assumes "b \<in> set (createRow rnd k)"
  shows "row b = k \<and> 1 \<le> value_b b \<and> value_b b \<le> MAX_VALUE"
proof -
  from assms obtain c where b:
    "b = \<lparr>id_b = fst (rnd c),
          value_b = \<lfloor>randomValue (snd (rnd c)) * real_of_int MAX_VALUE\<rfloor> + 1,
          row = k, col = c\<rparr>"
    by (auto simp: createRow_def)
  have "0 < MAX_VALUE"
    by (simp add: MAX_VALUE_def)
  from random_floor_range [OF this, of "snd (rnd c)"] b show ?thesis
    by simp
qed

lemma addRow_grid_not_full:
  assumes "\<not> list_ex (\<lambda>b. row b = 0) (grid s)"
  shows "grid (addRow rnd s) = map shiftUp (grid s) @ createRow rnd (GRID_ROWS - 1)"
  using assms by (simp add: addRow_def Let_def)

lemma addRow_full:
  assumes "list_ex (\<lambda>b. row b = 0) (grid s)"
  shows "addRow rnd s =
           (if mode s = Some Time then s\<lparr>gameOver := True, timeLeft := TIME_LIMIT\<rparr>
            else s\<lparr>gameOver := True\<rparr>)"
  using assms by (simp add: addRow_def Let_def)

section \<open>Target generation and the clear step\<close>

lemma length_targetValues: "length targetValues = 6"
  by (simp add: targetValues_def)

lemma pickTarget_in_values: "\<exists>t. pickTarget r = Some t \<and> t \<in> set targetValues"
proof -
  define i where "i = \<lfloor>randomValue r * 6\<rfloor>"
  have "(0::int) < 6" by simp
  from random_floor_range [OF this, of r] have i: "0 \<le> i" "i < 6"
    by (simp_all add: i_def)
  then have "nat i < length targetValues"
    unfolding length_targetValues by linarith
  then have "targetValues ! nat i \<in> set targetValues"
    by (rule nth_mem)
  moreover have "pickTarget r = Some (targetValues ! nat i)"
    using i by (simp add: pickTarget_def Let_def length_targetValues i_def)
  ultimately show ?thesis
    by blast
qed

lemma generateTarget_eq: "generateTarget r s = s\<lparr>target := target (generateTarget r s)\<rparr>"
  using pickTarget_in_values [of r] by (auto simp: generateTarget_def)

lemma target_generateTarget: "target (generateTarget r s) \<in> set targetValues"
  using pickTarget_in_values [of r] by (auto simp: generateTarget_def)

lemma target_generateTarget_any: "target (generateTarget r s) = target (generateTarget r s')"
  using pickTarget_in_values [of r] by (auto simp: generateTarget_def)

lemma target_generateTarget_pos: "10 \<le> target (generateTarget r s)"
  using target_generateTarget [of r s] by (auto simp: targetValues_def)

lemma clearSelected_eq:
  "clearSelected rT s =
     s\<lparr>score := score s + int (length (selectedIds s)) * 10,
       grid := filter (\<lambda>b. id_b b \<notin> set (selectedIds s)) (grid s),
       selectedIds := [],
       target := target (generateTarget rT s)\<rparr>"
proof -
  let ?s3 = "s\<lparr>score := score s + int (length (selectedIds s)) * 10,
       grid := filter (\<lambda>b. id_b b \<notin> set (selectedIds s)) (grid s),
       selectedIds := []\<rparr>"
  have "clearSelected rT s = generateTarget rT ?s3"
    by (simp add: clearSelected_def Let_def)
  also have "\<dots> = ?s3\<lparr>target := target (generateTarget rT ?s3)\<rparr>"
    by (rule generateTarget_eq)
  also have "target (generateTarget rT ?s3) = target (generateTarget rT s)"
    by (rule target_generateTarget_any)
  finally show ?thesis by simp
qed

lemma checkSum_clear:
  assumes "currentSum s = target s"
  shows "checkSum rT rnd s =
           (if mode s = Some Classic then addRow rnd (clearSelected rT s)
            else if mode s = Some Time then (clearSelected rT s)\<lparr>timeLeft := TIME_LIMIT\<rparr>
            else clearSelected rT s)"
  using assms by (simp add: checkSum_def Let_def)

section \<open>The selection sum\<close>

lemma foldl_values:
  "foldl (\<lambda>sum b. sum + value_b b) a xs = a + sum_list (map value_b xs)"
  by (induction xs arbitrary: a) simp_all

lemma currentSum_sum_list:
  "currentSum s = sum_list (map value_b (filter (\<lambda>b. id_b b \<in> set (selectedIds s)) (grid s)))"
  by (simp add: currentSum_def foldl_values)

lemma currentSum_cong:
  assumes "grid s' = grid s"
    and "\<And>b. b \<in> set (grid s) \<Longrightarrow> id_b b \<in> set (selectedIds s') \<longleftrightarrow> id_b b \<in> set (selectedIds s)"
  shows "currentSum s' = currentSum s"
proof -
  have "filter (\<lambda>b. id_b b \<in> set (selectedIds s')) (grid s)
      = filter (\<lambda>b. id_b b \<in> set (selectedIds s)) (grid s)"
    using assms(2) by (rule filter_cong [OF refl])
  then show ?thesis
    by (simp add: currentSum_def assms(1))
qed

lemma removed_less_selected:
  assumes d: "distinct (map id_b g)"
    and i: "i \<in> set sel" "i \<notin> id_b ` set g"
  shows "length (filter (\<lambda>b. id_b b \<in> set sel) g) < length sel"
proof -
  let ?f = "filter (\<lambda>b. id_b b \<in> set sel) g"
  have "distinct (map id_b ?f)"
    using d by (rule distinct_map_filter)
  then have "card (set (map id_b ?f)) = length (map id_b ?f)"
    by (rule distinct_card)
  then have "length ?f = card (set (map id_b ?f))"
    by simp
  also have "set (map id_b ?f) \<subseteq> set sel - {i}"
    using i(2) by auto
  then have "card (set (map id_b ?f)) \<le> card (set sel - {i})"
    by (simp add: card_mono)
  also have "card (set sel - {i}) < card (set sel)"
    using i(1) by (intro card_Diff1_less) simp_all
  also have "card (set sel) \<le> length sel"
    by (rule card_length)
  finally show ?thesis .
qed

lemma length_filter_complement:
  "length (filter (\<lambda>b. \<not> P b) g) + length (filter P g) = length g"
  by (induction g) simp_all

lemma empty_selection_no_clear:
  assumes "selectedIds s = []" and "target s \<in> set targetValues"
  shows "checkSum rT rnd s = s"
proof -
  have "currentSum s = 0"
    by (simp add: currentSum_def assms(1))
  moreover have "0 < target s"
    using assms(2) by (auto simp: targetValues_def)
  ultimately show ?thesis
    by (simp add: checkSum_def)
qed

section \<open>The timer\<close>

lemma advanceTime_decrement:
  assumes "mode s = Some Time" "\<not> gameOver s" "\<not> isPaused s" "1 < timeLeft s"
  shows "advanceTime rnd s = s\<lparr>timeLeft := timeLeft s - 1\<rparr>"
  using assms by (simp add: advanceTime_def tick_def)

lemma advanceTime_expire:
  assumes "mode s = Some Time" "\<not> gameOver s" "\<not> isPaused s" "timeLeft s \<le> 1"
  shows "advanceTime rnd s =
           (if list_ex (\<lambda>b. row b = 0) (grid s)
            then s\<lparr>gameOver := True, timeLeft := TIME_LIMIT\<rparr>
            else s\<lparr>grid := map shiftUp (grid s) @ createRow rnd (GRID_ROWS - 1),
                   timeLeft := TIME_LIMIT\<rparr>)"
  using assms by (simp add: advanceTime_def tick_def addRow_def Let_def)

lemma fold_advanceTime_countdown:
  assumes "mode s = Some Time" "\<not> gameOver s" "\<not> isPaused s"
    and "int (length rs) < timeLeft s"
  shows "fold advanceTime rs s = s\<lparr>timeLeft := timeLeft s - int (length rs)\<rparr>"
  using assms
proof (induction rs arbitrary: s)
  case Nil
  then show ?case by simp
next
  case (Cons r rs)
  let ?s1 = "s\<lparr>timeLeft := timeLeft s - 1\<rparr>"
  from Cons.prems have "1 < timeLeft s"
    by simp
  with Cons.prems have step: "advanceTime r s = ?s1"
    by (simp add: advanceTime_decrement)
  have "fold advanceTime rs ?s1 = ?s1\<lparr>timeLeft := timeLeft ?s1 - int (length rs)\<rparr>"
    using Cons.prems by (intro Cons.IH) simp_all
  then show ?case
    by (simp add: step algebra_simps)
qed

section \<open>Preservation of the grid invariant\<close>

lemma gridInvariant_iff:
  "gridInvariant g \<longleftrightarrow>
     (\<forall>i < length g. \<forall>j < length g. i \<noteq> j \<longrightarrow> (row (g ! i), col (g ! i)) \<noteq> (row (g ! j), col (g ! j)))
     \<and> (\<forall>b \<in> set g. 0 \<le> row b \<and> row b \<le> 9)"
  by (simp add: gridInvariant_def distinct_conv_nth list_all_iff GRID_ROWS_def)

lemma positions_createRow:
  "map (\<lambda>b. (row b, col b)) (createRow rnd k) = map (\<lambda>c. (k, c)) [0, 1, 2, 3, 4, 5, 6]"
  by (simp add: createRow_def column_indices)

lemma rows_createRow: "list_all (\<lambda>b. row b = k) (createRow rnd k)"
  by (simp add: createRow_def column_indices)

lemma gridInvariant_createRow:
  assumes "0 \<le> k" "k \<le> GRID_ROWS - 1"
  shows "gridInvariant (createRow rnd k)"
proof -
  have "list_all (\<lambda>b. 0 \<le> row b \<and> row b \<le> GRID_ROWS - 1) (createRow rnd k)"
    using rows_createRow [of k rnd] assms by (simp add: list_all_iff)
  then show ?thesis
    by (simp add: gridInvariant_def positions_createRow)
qed

lemma initial_row_indices: "[0..INITIAL_ROWS - 1] = [0, 1, 2, 3]"
  by (simp add: INITIAL_ROWS_def upto_rec1)

lemma grid_startGame:
  "grid (startGame rnds rT m s) =
     createRow (rnds 0) 9 @ createRow (rnds 1) 8 @ createRow (rnds 2) 7 @ createRow (rnds 3) 6"
proof -
  have "grid (startGame rnds rT m s) =
          concat (map (\<lambda>i. createRow (rnds i) (GRID_ROWS - 1 - i)) [0..INITIAL_ROWS - 1])"
    unfolding startGame_def by (subst generateTarget_eq) simp
  then show ?thesis
    by (simp add: initial_row_indices GRID_ROWS_def)
qed

lemma gridInvariant_startGame: "gridInvariant (grid (startGame rnds rT m s))"
proof -
  let ?g = "grid (startGame rnds rT m s)"
  have "list_all (\<lambda>b. 0 \<le> row b \<and> row b \<le> GRID_ROWS - 1) (createRow rnd k)"
    if "0 \<le> k" "k \<le> 9" for rnd k
    using rows_createRow [of k rnd] that by (simp add: list_all_iff GRID_ROWS_def)
  then have r: "list_all (\<lambda>b. 0 \<le> row b \<and> row b \<le> GRID_ROWS - 1) ?g"
    by (simp add: grid_startGame)
  have d: "distinct (map (\<lambda>b. (row b, col b)) ?g)"
    by (simp add: grid_startGame positions_createRow)
  from d r show ?thesis
    by (simp add: gridInvariant_def)
qed

lemma gridInvariant_filter:
  assumes "gridInvariant g"
  shows "gridInvariant (filter P g)"
  using assms by (simp add: gridInvariant_def distinct_map_filter list_all_iff)

lemma gridInvariant_shift_append:
  assumes inv: "gridInvariant g"
    and free: "\<not> list_ex (\<lambda>b. row b = 0) g"
  shows "gridInvariant (map shiftUp g @ createRow rnd (GRID_ROWS - 1))"
proof -
  let ?pos = "\<lambda>b. (row b, col b)"
  let ?down = "\<lambda>p :: int \<times> int. (fst p - 1, snd p)"
  from inv have d: "distinct (map ?pos g)"
    and r: "\<forall>b \<in> set g. 0 \<le> row b \<and> row b \<le> GRID_ROWS - 1"
    by (simp_all add: gridInvariant_def list_all_iff)
  from free have nz: "\<forall>b \<in> set g. row b \<noteq> 0"
    by (simp add: list_ex_iff)
  have shifted: "map ?pos (map shiftUp g) = map ?down (map ?pos g)"
    by (simp add: shiftUp_def)
  have "inj ?down"
    by (rule injI) (auto simp: prod_eq_iff)
  then have "inj_on ?down (set (map ?pos g))"
    by (rule inj_on_subset) simp
  with d have "distinct (map ?pos g) \<and> inj_on ?down (set (map ?pos g))"
    by (rule conjI)
  then have "distinct (map ?down (map ?pos g))"
    by (rule iffD2 [OF distinct_map])
  then have d1: "distinct (map ?pos (map shiftUp g))"
    by (simp only: shifted)
  have rows1: "\<forall>b \<in> set (map shiftUp g). 0 \<le> row b \<and> row b \<le> GRID_ROWS - 2"
    using r nz by (fastforce simp: shiftUp_def)
  have d2: "distinct (map ?pos (createRow rnd (GRID_ROWS - 1)))"
    by (simp add: positions_createRow)
  have rows2: "\<forall>b \<in> set (createRow rnd (GRID_ROWS - 1)). row b = GRID_ROWS - 1"
    using rows_createRow [of "GRID_ROWS - 1" rnd] by (simp add: list_all_iff)
  have apart: "set (map ?pos (map shiftUp g)) \<inter> set (map ?pos (createRow rnd (GRID_ROWS - 1))) = {}"
  proof (rule ccontr)
    assume "\<not> ?thesis"
    then obtain b c where b: "b \<in> set (map shiftUp g)"
      and c: "c \<in> set (createRow rnd (GRID_ROWS - 1))" and e: "?pos b = ?pos c"
      by auto
    from rows1 b have "row b \<le> GRID_ROWS - 2" by blast
    moreover from rows2 c have "row c = GRID_ROWS - 1" by blast
    ultimately show False using e by simp
  qed
  have dist: "distinct (map ?pos (map shiftUp g @ createRow rnd (GRID_ROWS - 1)))"
    using d1 d2 apart by (simp only: map_append distinct_append)
  have rows: "\<forall>b \<in> set (map shiftUp g @ createRow rnd (GRID_ROWS - 1)).
                0 \<le> row b \<and> row b \<le> GRID_ROWS - 1"
  proof
    fix b
    assume "b \<in> set (map shiftUp g @ createRow rnd (GRID_ROWS - 1))"
    then consider "b \<in> set (map shiftUp g)" | "b \<in> set (createRow rnd (GRID_ROWS - 1))"
      by auto
    then show "0 \<le> row b \<and> row b \<le> GRID_ROWS - 1"
    proof cases
      case 1
      with rows1 have "0 \<le> row b \<and> row b \<le> GRID_ROWS - 2" by blast
      then show ?thesis by simp
    next
      case 2
      with rows2 have "row b = GRID_ROWS - 1" by blast
      then show ?thesis by (simp add: GRID_ROWS_def)
    qed
  qed
  from dist rows show ?thesis
    unfolding gridInvariant_def list_all_iff by blast
qed

lemma gridInvariant_addRow:
  assumes "gridInvariant (grid s)"
  shows "gridInvariant (grid (addRow rnd s))"
proof (cases "list_ex (\<lambda>b. row b = 0) (grid s)")
  case True
  then have "grid (addRow rnd s) = grid s"
    by (simp add: addRow_full)
  with assms show ?thesis by simp
next
  case False
  then have "grid (addRow rnd s) = map shiftUp (grid s) @ createRow rnd (GRID_ROWS - 1)"
    by (rule addRow_grid_not_full)
  with assms False show ?thesis
    by (simp add: gridInvariant_shift_append)
qed

lemma gridInvariant_checkSum:
  assumes "gridInvariant (grid s)"
  shows "gridInvariant (grid (checkSum rT rnd s))"
proof (cases "currentSum s = target s")
  case True
  have c: "gridInvariant (grid (clearSelected rT s))"
    using assms by (simp add: clearSelected_eq gridInvariant_filter)
  then have "gridInvariant (grid (addRow rnd (clearSelected rT s)))"
    by (rule gridInvariant_addRow)
  with c True show ?thesis
    by (simp add: checkSum_clear)
next
  case False
  with assms show ?thesis
    by (simp add: checkSum_def)
qed

lemma gridInvariant_advanceTime:
  assumes "gridInvariant (grid s)"
  shows "gridInvariant (grid (advanceTime rnd s))"
proof -
  have "gridInvariant (grid (addRow rnd s))"
    using assms by (rule gridInvariant_addRow)
  with assms show ?thesis
    by (simp add: advanceTime_def tick_def)
qed

section \<open>Reading a stored number\<close>

lemma decimal_digit_facts:
  assumes "c \<in> set ''0123456789''"
  shows "\<not> isWhiteSpace c" and "c \<noteq> CHR ''+''" and "c \<noteq> CHR ''-''"
    and "c \<noteq> CHR ''x''" and "c \<noteq> CHR ''X''"
    and "isRadixDigit 10 c" and "\<exists>d. digitValue c = Some d \<and> 0 \<le> d"
  using assms by (auto simp: isWhiteSpace_def isRadixDigit_def digitValue_def)

lemma foldl_digits_nonneg:
  assumes "\<forall>c \<in> set v. \<exists>d. digitValue c = Some d \<and> 0 \<le> d" and "0 \<le> a"
  shows "0 \<le> foldl (\<lambda>a c. case digitValue c of Some d \<Rightarrow> a * 10 + d | None \<Rightarrow> a) a v"
  using assms
proof (induction v arbitrary: a)
  case Nil
  then show ?case by simp
next
  case (Cons c v)
  from Cons.prems obtain d where d: "digitValue c = Some d" "0 \<le> d"
    by auto
  with Cons.prems have "0 \<le> a * 10 + d"
    by simp
  with Cons.IH [of "a * 10 + d"] Cons.prems(1) d show ?case
    by simp
qed

lemma parseInt_decimal:
  assumes ne: "v \<noteq> []" and dec: "list_all (\<lambda>c. c \<in> set ''0123456789'') v"
  shows "\<exists>n. parseInt v = Num n \<and> 0 \<le> n"
proof -
  from dec have all: "\<forall>c \<in> set v. c \<in> set ''0123456789''"
    by (simp only: list_all_iff)
  from ne obtain c w where v: "v = c # w"
    by (cases v) auto
  with all have c: "c \<in> set ''0123456789''"
    by simp
  have ws: "dropWhile isWhiteSpace v = v"
    using decimal_digit_facts(1) [OF c] by (simp add: v)
  have sign: "take 1 v \<noteq> ''+''" "take 1 v \<noteq> ''-''"
    using decimal_digit_facts(2,3) [OF c] by (simp_all add: v)
  have nox: "CHR ''x'' \<notin> set (take 2 v)" "CHR ''X'' \<notin> set (take 2 v)"
  proof -
    have sub: "set (take 2 v) \<subseteq> set v"
      by (rule set_take_subset)
    show "CHR ''x'' \<notin> set (take 2 v)"
    proof
      assume "CHR ''x'' \<in> set (take 2 v)"
      with sub all have "CHR ''x'' \<in> set ''0123456789''"
        by blast
      then show False
        by simp
    qed
    show "CHR ''X'' \<notin> set (take 2 v)"
    proof
      assume "CHR ''X'' \<in> set (take 2 v)"
      with sub all have "CHR ''X'' \<in> set ''0123456789''"
        by blast
      then show False
        by simp
    qed
  qed
  have hex: "take 2 v \<noteq> ''0x''" "take 2 v \<noteq> ''0X''"
  proof -
    show "take 2 v \<noteq> ''0x''"
    proof
      assume "take 2 v = ''0x''"
      then have "CHR ''x'' \<in> set (take 2 v)"
        by simp
      with nox(1) show False ..
    qed
    show "take 2 v \<noteq> ''0X''"
    proof
      assume "take 2 v = ''0X''"
      then have "CHR ''X'' \<in> set (take 2 v)"
        by simp
      with nox(2) show False ..
    qed
  qed
  have Z: "takeWhile (isRadixDigit 10) v = v"
    using all decimal_digit_facts(6) by (simp add: takeWhile_eq_all_conv)
  have nn: "0 \<le> foldl (\<lambda>a c. case digitValue c of Some d \<Rightarrow> a * 10 + d | None \<Rightarrow> a) 0 v"
    using all decimal_digit_facts(7) by (intro foldl_digits_nonneg) auto
  have "parseInt v =
          Num (foldl (\<lambda>a c. case digitValue c of Some d \<Rightarrow> a * 10 + d | None \<Rightarrow> a) 0 v)"
    by (simp only: parseInt_def Let_def ws sign hex Z ne simp_thms if_False)
  with nn show ?thesis
    by blast
qed

lemma toString_0: "toString 0 = ''0''"
  by (simp add: toString_def digitsOf.simps [of 0])

lemma updateHighScore_NaN:
  assumes "highScore s = NaN"
  shows "updateHighScore stored s = (stored, s)"
  using assms by (simp add: updateHighScore_def)

lemma updateHighScore_settled:
  "updateHighScore (fst (updateHighScore stored s)) (snd (updateHighScore stored s))
     = updateHighScore stored s"
  by (cases "highScore s") (simp_all add: updateHighScore_def)

lemma parseInt_no_number:
  assumes "\<not> isWhiteSpace c" and "c \<noteq> CHR ''+''" and "c \<noteq> CHR ''-''"
    and "\<not> isRadixDigit 10 c"
  shows "parseInt (c # w) = NaN"
proof -
  let ?v = "c # w"
  have ws: "dropWhile isWhiteSpace ?v = ?v"
    using assms(1) by simp
  have sign: "take 1 ?v \<noteq> ''+''" "take 1 ?v \<noteq> ''-''"
    using assms(2,3) by simp_all
  have "isRadixDigit 10 CHR ''0''"
    by (simp add: isRadixDigit_def digitValue_def)
  with assms(4) have "c \<noteq> CHR ''0''"
    by auto
  then have hex: "take 2 ?v \<noteq> ''0x''" "take 2 ?v \<noteq> ''0X''"
    by (cases w; simp)+
  have Z: "takeWhile (isRadixDigit 10) ?v = []"
    using assms(4) by simp
  show ?thesis
    by (simp only: parseInt_def Let_def ws sign hex Z simp_thms if_False if_True)
qed

lemma settle_loaded:
  assumes "v \<noteq> []"
  shows "updateHighScore (Some v) (loadHighScore (Some v) initialState) =
           (case parseInt v of
              NaN \<Rightarrow> (Some v, initialState\<lparr>highScore := NaN\<rparr>)
            | Num n \<Rightarrow> if n < 0 then (Some ''0'', initialState)
                       else (Some v, initialState\<lparr>highScore := Num n\<rparr>))"
  using assms
  by (cases "parseInt v")
    (simp_all add: updateHighScore_def loadHighScore_def toString_0 initialState_def)

section \<open>Evaluating the concrete draws and states\<close>

lemma value_exampleDraw:
  "\<lfloor>randomValue (snd (exampleDraw c)) * real_of_int MAX_VALUE\<rfloor> + 1 = 5"
  by (simp add: exampleDraw_def randomHalf.rep_eq MAX_VALUE_def)

lemma createRow_exampleDraw:
  "createRow exampleDraw k =
     map (\<lambda>c. \<lparr>id_b = ''n'', value_b = 5, row = k, col = c\<rparr>) [0, 1, 2, 3, 4, 5, 6]"
  by (simp add: createRow_def column_indices value_exampleDraw) (simp add: exampleDraw_def)

lemma target_halfway: "target (generateTarget randomHalf s) = 18"
  by (simp add: generateTarget_def pickTarget_def targetValues_def randomHalf.rep_eq)

lemma currentSum_exampleState: "currentSum exampleState = 10"
  by (simp add: currentSum_def exampleState_def exampleGrid_def)

section \<open>Row injection\<close>

text \<open>
  C2. When no tile of the grid is in row 0, \<open>addRow\<close> lowers the row of every existing
  tile by exactly 1, leaving its id, value and column as they are, and appends exactly
  \<open>GRID_COLS = 7\<close> new tiles in row \<open>GRID_ROWS - 1 = 9\<close>, one for each column 0 to 6, each
  with a value between 1 and \<open>MAX_VALUE = 9\<close>.
\<close>

theorem addRow_shifts_and_appends:
  assumes "\<forall>b \<in> set (grid s). row b \<noteq> 0"
  shows "grid (addRow rnd s) =
           map (\<lambda>b. \<lparr>id_b = id_b b, value_b = value_b b, row = row b - 1, col = col b\<rparr>) (grid s)
           @ createRow rnd 9
         \<and> length (createRow rnd 9) = 7
         \<and> map col (createRow rnd 9) = [0, 1, 2, 3, 4, 5, 6]
         \<and> (\<forall>b \<in> set (createRow rnd 9). row b = 9 \<and> 1 \<le> value_b b \<and> value_b b \<le> 9)
         \<and> GRID_COLS = 7 \<and> GRID_ROWS - 1 = 9 \<and> MAX_VALUE = 9"
proof -
  from assms have "\<not> list_ex (\<lambda>b. row b = 0) (grid s)"
    by (simp add: list_ex_iff)
  then have "grid (addRow rnd s) = map shiftUp (grid s) @ createRow rnd (GRID_ROWS - 1)"
    by (rule addRow_grid_not_full)
  moreover have "shiftUp = (\<lambda>b. \<lparr>id_b = id_b b, value_b = value_b b, row = row b - 1, col = col b\<rparr>)"
    by (rule ext) (simp add: shiftUp_def)
  ultimately have g: "grid (addRow rnd s) =
      map (\<lambda>b. \<lparr>id_b = id_b b, value_b = value_b b, row = row b - 1, col = col b\<rparr>) (grid s)
      @ createRow rnd 9"
    by (simp add: GRID_ROWS_def)
  have c: "map col (createRow rnd 9) = [0, 1, 2, 3, 4, 5, 6]"
    by (rule cols_createRow)
  have v: "\<forall>b \<in> set (createRow rnd 9). row b = 9 \<and> 1 \<le> value_b b \<and> value_b b \<le> 9"
    using createRow_tiles [of _ rnd 9] by (simp add: MAX_VALUE_def)
  from g c v show ?thesis
    by (simp add: length_createRow GRID_COLS_def GRID_ROWS_def MAX_VALUE_def)
qed

theorem addRow_shifts_and_appends_witness:
  "list_all (\<lambda>b. row b \<noteq> 0) (grid lowState)
   \<and> grid (addRow exampleDraw lowState) =
       \<lparr>id_b = ''a'', value_b = 4, row = 8, col = 0\<rparr>
       # map (\<lambda>c. \<lparr>id_b = ''n'', value_b = 5, row = 9, col = c\<rparr>) [0, 1, 2, 3, 4, 5, 6]"
proof -
  have h: "\<forall>b \<in> set (grid lowState). row b \<noteq> 0"
    by (simp add: lowState_def bottomTile_def)
  from addRow_shifts_and_appends [OF h, of exampleDraw] have
    "grid (addRow exampleDraw lowState) =
       map (\<lambda>b. \<lparr>id_b = id_b b, value_b = value_b b, row = row b - 1, col = col b\<rparr>)
         (grid lowState) @ createRow exampleDraw 9"
    by simp
  then show ?thesis
    by (simp add: lowState_def bottomTile_def createRow_exampleDraw)
qed

text \<open>
  C3, as stated: when some tile is in row 0, \<open>addRow\<close> sets \<open>gameOver\<close> and changes
  nothing else, in particular not \<open>timeLeft\<close>. In time mode this fails: the timer reset
  of \<open>addRow\<close> is outside the grid updater and runs whether or not the grid was full, so
  the state with one tile in row 0 and one second left ends with ten seconds left, both
  when \<open>addRow\<close> is applied directly and when the timer's tick applies it.
\<close>

theorem addRow_full_changes_timeLeft:
  "list_ex (\<lambda>b. row b = 0) (grid fullTimeState)
   \<and> timeLeft fullTimeState = 1
   \<and> timeLeft (addRow exampleDraw fullTimeState) = 10
   \<and> addRow exampleDraw fullTimeState \<noteq> fullTimeState\<lparr>gameOver := True\<rparr>
   \<and> timeLeft (advanceTime exampleDraw fullTimeState) = 10"
  by (simp add: fullTimeState_def topTile_def addRow_def advanceTime_def tick_def TIME_LIMIT_def)

text \<open>
  C3, amended: when some tile is in row 0, \<open>addRow\<close> sets \<open>gameOver\<close> and leaves the grid
  and every other component as it was, except that in time mode it also sets \<open>timeLeft\<close>
  to \<open>TIME_LIMIT\<close>; outside time mode \<open>timeLeft\<close> is unchanged.
\<close>

theorem addRow_full_game_over:
  assumes "\<exists>b \<in> set (grid s). row b = 0"
  shows "addRow rnd s =
           s\<lparr>gameOver := True,
             timeLeft := (if mode s = Some Time then TIME_LIMIT else timeLeft s)\<rparr>
         \<and> grid (addRow rnd s) = grid s
         \<and> gameOver (addRow rnd s)"
proof -
  from assms have "list_ex (\<lambda>b. row b = 0) (grid s)"
    by (simp add: list_ex_iff)
  then show ?thesis
    by (simp add: addRow_full)
qed

theorem addRow_full_game_over_witness:
  "(\<exists>b \<in> set (grid fullClassicState). row b = 0)
   \<and> addRow exampleDraw fullClassicState = fullClassicState\<lparr>gameOver := True\<rparr>
   \<and> addRow exampleDraw fullTimeState = fullTimeState\<lparr>gameOver := True, timeLeft := 10\<rparr>"
proof -
  have h1: "\<exists>b \<in> set (grid fullClassicState). row b = 0"
    by (simp add: fullClassicState_def fullTimeState_def topTile_def)
  have h2: "\<exists>b \<in> set (grid fullTimeState). row b = 0"
    by (simp add: fullTimeState_def topTile_def)
  from addRow_full_game_over [OF h1, of exampleDraw] addRow_full_game_over [OF h2, of exampleDraw]
  show ?thesis
    using h1 by (simp add: fullClassicState_def fullTimeState_def TIME_LIMIT_def)
qed

section \<open>Selection evaluation\<close>

text \<open>
  C1. Whenever the values of the selected tiles sum to the target, selection evaluation
  empties the selection, adds ten points per selected id to the score, draws a new target
  from the candidate values, and removes from the grid exactly the tiles whose id is
  selected: the clear step keeps the other tiles in their order and as they are. What the
  evaluation leaves as the grid is that list of kept tiles, which in classic mode the row
  injection that follows has shifted up and extended by a new bottom row unless one of
  them is in row 0.
\<close>

theorem clear_removes_selected:
  assumes "currentSum s = target s"
  shows "selectedIds (checkSum rT rnd s) = []
         \<and> score (checkSum rT rnd s) = score s + int (length (selectedIds s)) * 10
         \<and> target (checkSum rT rnd s) = target (generateTarget rT s)
         \<and> target (checkSum rT rnd s) \<in> {10, 12, 15, 18, 20, 25}
         \<and> grid (clearSelected rT s) = filter (\<lambda>b. id_b b \<notin> set (selectedIds s)) (grid s)
         \<and> set (grid (clearSelected rT s)) = set (grid s) - {b. id_b b \<in> set (selectedIds s)}
         \<and> grid (checkSum rT rnd s) =
             (if mode s = Some Classic \<and> \<not> list_ex (\<lambda>b. row b = 0) (grid (clearSelected rT s))
              then map shiftUp (grid (clearSelected rT s)) @ createRow rnd (GRID_ROWS - 1)
              else grid (clearSelected rT s))"
proof -
  let ?c = "clearSelected rT s"
  have c: "?c = s\<lparr>score := score s + int (length (selectedIds s)) * 10,
       grid := filter (\<lambda>b. id_b b \<notin> set (selectedIds s)) (grid s),
       selectedIds := [],
       target := target (generateTarget rT s)\<rparr>"
    by (rule clearSelected_eq)
  have cs: "checkSum rT rnd s =
           (if mode s = Some Classic then addRow rnd ?c
            else if mode s = Some Time then ?c\<lparr>timeLeft := TIME_LIMIT\<rparr>
            else ?c)"
    using assms by (rule checkSum_clear)
  have sel: "selectedIds (checkSum rT rnd s) = []"
    unfolding cs by (simp add: c addRow_def Let_def)
  have sc: "score (checkSum rT rnd s) = score s + int (length (selectedIds s)) * 10"
    unfolding cs by (simp add: c addRow_def Let_def)
  have tg: "target (checkSum rT rnd s) = target (generateTarget rT s)"
    unfolding cs by (simp add: c addRow_def Let_def)
  have tv: "target (checkSum rT rnd s) \<in> {10, 12, 15, 18, 20, 25}"
    using target_generateTarget [of rT s] unfolding tg by (simp add: targetValues_def)
  have g1: "grid ?c = filter (\<lambda>b. id_b b \<notin> set (selectedIds s)) (grid s)"
    by (simp add: c)
  have g2: "set (grid ?c) = set (grid s) - {b. id_b b \<in> set (selectedIds s)}"
    unfolding g1 by auto
  have md: "mode ?c = mode s"
    by (simp add: c)
  have g3: "grid (checkSum rT rnd s) =
             (if mode s = Some Classic \<and> \<not> list_ex (\<lambda>b. row b = 0) (grid ?c)
              then map shiftUp (grid ?c) @ createRow rnd (GRID_ROWS - 1)
              else grid ?c)"
    unfolding cs by (simp add: addRow_def Let_def md)
  from sel sc tg tv g1 g2 g3 show ?thesis
    by blast
qed

theorem clear_removes_selected_witness:
  "currentSum exampleState = target exampleState
   \<and> selectedIds (checkSum randomHalf exampleDraw exampleState) = []
   \<and> score (checkSum randomHalf exampleDraw exampleState) = score exampleState + 20
   \<and> target (checkSum randomHalf exampleDraw exampleState) = 18
   \<and> grid (checkSum randomHalf exampleDraw exampleState) =
       \<lparr>id_b = ''c'', value_b = 9, row = 8, col = 2\<rparr>
       # map (\<lambda>c. \<lparr>id_b = ''n'', value_b = 5, row = 9, col = c\<rparr>) [0, 1, 2, 3, 4, 5, 6]"
proof -
  have h: "currentSum exampleState = target exampleState"
    by (simp add: currentSum_exampleState) (simp add: exampleState_def)
  note T = clear_removes_selected [OF h, of randomHalf exampleDraw]
  have k: "grid (clearSelected randomHalf exampleState) =
             [\<lparr>id_b = ''c'', value_b = 9, row = 9, col = 2\<rparr>]"
    by (simp add: clearSelected_eq) (simp add: exampleState_def exampleGrid_def)
  have m: "mode exampleState = Some Classic"
    by (simp add: exampleState_def)
  have a: "selectedIds (checkSum randomHalf exampleDraw exampleState) = []"
    by (rule T [THEN conjunct1])
  have "score (checkSum randomHalf exampleDraw exampleState) =
          score exampleState + int (length (selectedIds exampleState)) * 10"
    by (rule T [THEN conjunct2, THEN conjunct1])
  then have b: "score (checkSum randomHalf exampleDraw exampleState) = score exampleState + 20"
    by (simp add: exampleState_def)
  have "target (checkSum randomHalf exampleDraw exampleState) =
          target (generateTarget randomHalf exampleState)"
    by (rule T [THEN conjunct2, THEN conjunct2, THEN conjunct1])
  then have c: "target (checkSum randomHalf exampleDraw exampleState) = 18"
    by (simp add: target_halfway)
  from T have "grid (checkSum randomHalf exampleDraw exampleState) =
      (if mode exampleState = Some Classic
          \<and> \<not> list_ex (\<lambda>b. row b = 0) (grid (clearSelected randomHalf exampleState))
       then map shiftUp (grid (clearSelected randomHalf exampleState))
            @ createRow exampleDraw (GRID_ROWS - 1)
       else grid (clearSelected randomHalf exampleState))"
    by (elim conjE)
  then have d: "grid (checkSum randomHalf exampleDraw exampleState) =
       \<lparr>id_b = ''c'', value_b = 9, row = 8, col = 2\<rparr>
       # map (\<lambda>c. \<lparr>id_b = ''n'', value_b = 5, row = 9, col = c\<rparr>) [0, 1, 2, 3, 4, 5, 6]"
    unfolding k m by (simp add: createRow_exampleDraw shiftUp_def GRID_ROWS_def)
  from h a b c d show ?thesis
    by (intro conjI)
qed

text \<open>
  C8. A clear in classic mode is the clear step followed by exactly one \<open>addRow\<close>, which
  in that mode leaves the timer alone; a clear in time mode is the clear step followed by
  the reset of \<open>timeLeft\<close> to \<open>TIME_LIMIT\<close>, with no row injection: the grid is the old
  one without the selected tiles (none shifted, none added) and \<open>gameOver\<close> is untouched.
\<close>

theorem clear_then_mode_action:
  assumes "currentSum s = target s"
  shows "(mode s = Some Classic \<longrightarrow>
            checkSum rT rnd s = addRow rnd (clearSelected rT s)
            \<and> timeLeft (checkSum rT rnd s) = timeLeft s)
         \<and> (mode s = Some Time \<longrightarrow>
            checkSum rT rnd s = (clearSelected rT s)\<lparr>timeLeft := TIME_LIMIT\<rparr>
            \<and> grid (checkSum rT rnd s) = filter (\<lambda>b. id_b b \<notin> set (selectedIds s)) (grid s)
            \<and> timeLeft (checkSum rT rnd s) = TIME_LIMIT
            \<and> gameOver (checkSum rT rnd s) = gameOver s)"
proof (intro conjI impI)
  assume m: "mode s = Some Classic"
  with assms show c: "checkSum rT rnd s = addRow rnd (clearSelected rT s)"
    by (simp add: checkSum_clear)
  show "timeLeft (checkSum rT rnd s) = timeLeft s"
    unfolding c using m by (simp add: addRow_def Let_def clearSelected_eq)
next
  assume m: "mode s = Some Time"
  with assms show c: "checkSum rT rnd s = (clearSelected rT s)\<lparr>timeLeft := TIME_LIMIT\<rparr>"
    by (simp add: checkSum_clear)
  show "grid (checkSum rT rnd s) = filter (\<lambda>b. id_b b \<notin> set (selectedIds s)) (grid s)"
    unfolding c by (simp add: clearSelected_eq)
  show "timeLeft (checkSum rT rnd s) = TIME_LIMIT"
    unfolding c by simp
  show "gameOver (checkSum rT rnd s) = gameOver s"
    unfolding c by (simp add: clearSelected_eq)
qed

theorem clear_then_mode_action_witness:
  "currentSum exampleState = target exampleState
   \<and> mode exampleState = Some Classic
   \<and> checkSum randomHalf exampleDraw exampleState =
       addRow exampleDraw (clearSelected randomHalf exampleState)
   \<and> length (grid (checkSum randomHalf exampleDraw exampleState)) = 8
   \<and> currentSum exampleTimeState = target exampleTimeState
   \<and> mode exampleTimeState = Some Time
   \<and> grid (checkSum randomHalf exampleDraw exampleTimeState) =
       [\<lparr>id_b = ''c'', value_b = 9, row = 9, col = 2\<rparr>]
   \<and> timeLeft exampleTimeState = 3
   \<and> timeLeft (checkSum randomHalf exampleDraw exampleTimeState) = 10"
proof -
  have h1: "currentSum exampleState = target exampleState"
    by (simp add: currentSum_exampleState) (simp add: exampleState_def)
  have m1: "mode exampleState = Some Classic"
    by (simp add: exampleState_def)
  have h2: "currentSum exampleTimeState = target exampleTimeState"
    by (simp add: currentSum_def exampleTimeState_def exampleState_def exampleGrid_def)
  have m2: "mode exampleTimeState = Some Time"
    by (simp add: exampleTimeState_def)
  have t2: "timeLeft exampleTimeState = 3"
    by (simp add: exampleTimeState_def)
  note A = clear_then_mode_action [OF h1, of randomHalf exampleDraw, THEN conjunct1, rule_format, OF m1]
  note B = clear_then_mode_action [OF h2, of randomHalf exampleDraw, THEN conjunct2, rule_format, OF m2]
  have a: "checkSum randomHalf exampleDraw exampleState =
       addRow exampleDraw (clearSelected randomHalf exampleState)"
    by (rule A [THEN conjunct1])
  have b: "length (grid (checkSum randomHalf exampleDraw exampleState)) = 8"
    unfolding a
    by (simp add: addRow_def Let_def clearSelected_eq length_createRow)
      (simp add: exampleState_def exampleGrid_def length_createRow)
  have "grid (checkSum randomHalf exampleDraw exampleTimeState) =
          filter (\<lambda>b. id_b b \<notin> set (selectedIds exampleTimeState)) (grid exampleTimeState)"
    by (rule B [THEN conjunct2, THEN conjunct1])
  then have c: "grid (checkSum randomHalf exampleDraw exampleTimeState) =
       [\<lparr>id_b = ''c'', value_b = 9, row = 9, col = 2\<rparr>]"
    by (simp add: exampleTimeState_def exampleState_def exampleGrid_def)
  have "timeLeft (checkSum randomHalf exampleDraw exampleTimeState) = TIME_LIMIT"
    by (rule B [THEN conjunct2, THEN conjunct2, THEN conjunct1])
  then have d: "timeLeft (checkSum randomHalf exampleDraw exampleTimeState) = 10"
    by (simp add: TIME_LIMIT_def)
  from h1 m1 a b h2 m2 c t2 d show ?thesis
    by (intro conjI)
qed

text \<open>
  C10, as stated: whenever the selection holds an id that is in no tile of the grid and
  the selected tiles sum to the target, the score grows by strictly more than ten times
  the number of tiles removed. Nothing keeps the drawn ids apart, and a selected id
  removes every tile that carries it: with two tiles of id \<open>d\<close> and value 5, the target 10
  and the selection \<open>d\<close>, \<open>z\<close>, two tiles go and the score grows by 20, not by more.
\<close>

theorem twin_ids_score_not_above_removed:
  "currentSum twinState = target twinState
   \<and> ''z'' \<in> set (selectedIds twinState)
   \<and> ''z'' \<notin> id_b ` set (grid twinState)
   \<and> score (checkSum randomHalf exampleDraw twinState) - score twinState = 20
   \<and> int (length (grid twinState))
       - int (length (grid (checkSum randomHalf exampleDraw twinState))) = 2
   \<and> \<not> (score (checkSum randomHalf exampleDraw twinState) - score twinState
          > 10 * (int (length (grid twinState))
                  - int (length (grid (checkSum randomHalf exampleDraw twinState)))))"
proof -
  have h: "currentSum twinState = target twinState"
    by (simp add: currentSum_def twinState_def)
  have c: "checkSum randomHalf exampleDraw twinState =
             (clearSelected randomHalf twinState)\<lparr>timeLeft := TIME_LIMIT\<rparr>"
    using h by (simp add: checkSum_clear) (simp add: twinState_def)
  show ?thesis
    unfolding c using h by (simp add: clearSelected_eq) (simp add: twinState_def)
qed

text \<open>
  C10, amended: the sum that selection evaluation computes is the sum over the tiles of
  the grid whose id is selected, so selected ids that are in no tile add nothing to it;
  a clear adds ten points per selected id. Hence, when the tiles of the grid have
  pairwise distinct ids, the selection holds an id that is in no tile, and the selected
  tiles sum to the target, the score grows by strictly more than ten times the number of
  tiles the clear removes.
\<close>

theorem score_counts_absent_ids:
  assumes "currentSum s = target s"
    and "distinct (map id_b (grid s))"
    and "i \<in> set (selectedIds s)"
    and "i \<notin> id_b ` set (grid s)"
  shows "currentSum s =
           sum_list (map value_b (filter (\<lambda>b. id_b b \<in> set (selectedIds s)) (grid s)))
         \<and> currentSum s =
           currentSum (s\<lparr>selectedIds := filter (\<lambda>j. j \<in> id_b ` set (grid s)) (selectedIds s)\<rparr>)
         \<and> score (checkSum rT rnd s) - score s = 10 * int (length (selectedIds s))
         \<and> int (length (grid s)) - int (length (grid (clearSelected rT s)))
           = int (length (filter (\<lambda>b. id_b b \<in> set (selectedIds s)) (grid s)))
         \<and> score (checkSum rT rnd s) - score s
           > 10 * (int (length (grid s)) - int (length (grid (clearSelected rT s))))"
proof -
  have a: "currentSum s =
           sum_list (map value_b (filter (\<lambda>b. id_b b \<in> set (selectedIds s)) (grid s)))"
    by (rule currentSum_sum_list)
  have b: "currentSum s =
           currentSum (s\<lparr>selectedIds := filter (\<lambda>j. j \<in> id_b ` set (grid s)) (selectedIds s)\<rparr>)"
    by (rule currentSum_cong [symmetric]) auto
  have "score (checkSum rT rnd s) = score s + int (length (selectedIds s)) * 10"
    using assms(1) by (simp add: checkSum_clear clearSelected_eq addRow_def Let_def)
  then have c: "score (checkSum rT rnd s) - score s = 10 * int (length (selectedIds s))"
    by simp
  have "length (grid (clearSelected rT s))
          + length (filter (\<lambda>b. id_b b \<in> set (selectedIds s)) (grid s)) = length (grid s)"
    using length_filter_complement [of "\<lambda>b. id_b b \<in> set (selectedIds s)" "grid s"]
    by (simp add: clearSelected_eq)
  then have d: "int (length (grid s)) - int (length (grid (clearSelected rT s)))
           = int (length (filter (\<lambda>b. id_b b \<in> set (selectedIds s)) (grid s)))"
    by linarith
  have "length (filter (\<lambda>b. id_b b \<in> set (selectedIds s)) (grid s)) < length (selectedIds s)"
    using assms(2-4) by (rule removed_less_selected)
  then have e: "score (checkSum rT rnd s) - score s
           > 10 * (int (length (grid s)) - int (length (grid (clearSelected rT s))))"
    unfolding c d by simp
  from a b c d e show ?thesis
    by (intro conjI)
qed

theorem score_counts_absent_ids_witness:
  "currentSum staleState = target staleState
   \<and> distinct (map id_b (grid staleState))
   \<and> ''z'' \<in> set (selectedIds staleState)
   \<and> ''z'' \<notin> id_b ` set (grid staleState)
   \<and> score (checkSum randomHalf exampleDraw staleState) - score staleState = 30
   \<and> int (length (grid staleState)) - int (length (grid (clearSelected randomHalf staleState))) = 2"
proof -
  have h1: "currentSum staleState = target staleState"
    by (simp add: currentSum_def staleState_def exampleState_def exampleGrid_def)
  have h2: "distinct (map id_b (grid staleState))"
    by (simp add: staleState_def exampleState_def exampleGrid_def)
  have h3: "''z'' \<in> set (selectedIds staleState)"
    by (simp add: staleState_def)
  have h4: "''z'' \<notin> id_b ` set (grid staleState)"
    by (simp add: staleState_def exampleState_def exampleGrid_def)
  note T = score_counts_absent_ids [OF h1 h2 h3 h4, of randomHalf exampleDraw]
  from T have "score (checkSum randomHalf exampleDraw staleState) - score staleState
                 = 10 * int (length (selectedIds staleState))"
    by (elim conjE)
  then have a: "score (checkSum randomHalf exampleDraw staleState) - score staleState = 30"
    by (simp add: staleState_def)
  from T have "int (length (grid staleState)) - int (length (grid (clearSelected randomHalf staleState)))
           = int (length (filter (\<lambda>b. id_b b \<in> set (selectedIds staleState)) (grid staleState)))"
    by (elim conjE)
  then have b: "int (length (grid staleState))
      - int (length (grid (clearSelected randomHalf staleState))) = 2"
    by (simp add: staleState_def exampleState_def exampleGrid_def)
  from h1 h2 h3 h4 a b show ?thesis
    by (intro conjI)
qed

section \<open>The countdown of time mode\<close>

text \<open>
  C7. In time mode, running and not paused, with \<open>timeLeft = TIME_LIMIT\<close>: each of the
  first \<open>TIME_LIMIT - 1 = 9\<close> calls of \<open>advanceTime\<close> only lowers \<open>timeLeft\<close> by 1 (after
  \<open>k\<close> calls the state is the starting one with \<open>timeLeft = TIME_LIMIT - k\<close>), and the call
  number \<open>TIME_LIMIT\<close> performs the one row injection: the grid is shifted up and gets its
  new bottom row, or, when a tile was in row 0, the grid stays and \<open>gameOver\<close> is set; in
  both cases \<open>timeLeft\<close> is back at \<open>TIME_LIMIT\<close> and nothing else has changed.
\<close>

theorem countdown_one_injection:
  assumes "mode s = Some Time" and "\<not> gameOver s" and "\<not> isPaused s"
    and "timeLeft s = TIME_LIMIT"
    and "int (length rnds) = TIME_LIMIT - 1"
  shows "(\<forall>k \<le> length rnds.
            fold advanceTime (take k rnds) s = s\<lparr>timeLeft := TIME_LIMIT - int k\<rparr>)
         \<and> int (length (rnds @ [rnd])) = TIME_LIMIT
         \<and> fold advanceTime (rnds @ [rnd]) s =
             (if list_ex (\<lambda>b. row b = 0) (grid s) then s\<lparr>gameOver := True\<rparr>
              else s\<lparr>grid := map shiftUp (grid s) @ createRow rnd (GRID_ROWS - 1)\<rparr>)
         \<and> timeLeft (fold advanceTime (rnds @ [rnd]) s) = TIME_LIMIT"
proof -
  have before: "fold advanceTime (take k rnds) s = s\<lparr>timeLeft := TIME_LIMIT - int k\<rparr>"
    if "k \<le> length rnds" for k
  proof -
    from that assms(5) have "int (length (take k rnds)) < timeLeft s"
      by (simp add: assms(4))
    with assms(1-3)
    have "fold advanceTime (take k rnds) s = s\<lparr>timeLeft := timeLeft s - int (length (take k rnds))\<rparr>"
      by (rule fold_advanceTime_countdown)
    with that show ?thesis
      by (simp add: assms(4) min_def)
  qed
  let ?s9 = "s\<lparr>timeLeft := 1\<rparr>"
  from before [of "length rnds"] assms(5) have nine: "fold advanceTime rnds s = ?s9"
    by simp
  have "advanceTime rnd ?s9 =
           (if list_ex (\<lambda>b. row b = 0) (grid ?s9)
            then ?s9\<lparr>gameOver := True, timeLeft := TIME_LIMIT\<rparr>
            else ?s9\<lparr>grid := map shiftUp (grid ?s9) @ createRow rnd (GRID_ROWS - 1),
                   timeLeft := TIME_LIMIT\<rparr>)"
    using assms(1-3) by (intro advanceTime_expire) simp_all
  then have last: "fold advanceTime (rnds @ [rnd]) s =
             (if list_ex (\<lambda>b. row b = 0) (grid s) then s\<lparr>gameOver := True\<rparr>
              else s\<lparr>grid := map shiftUp (grid s) @ createRow rnd (GRID_ROWS - 1)\<rparr>)"
    using assms(4) by (simp add: nine)
  have tl: "timeLeft (fold advanceTime (rnds @ [rnd]) s) = TIME_LIMIT"
    unfolding last using assms(4) by simp
  from before assms(5) last tl show ?thesis
    by simp
qed

theorem countdown_one_injection_witness:
  "mode lowTimeState = Some Time \<and> \<not> gameOver lowTimeState \<and> \<not> isPaused lowTimeState
   \<and> timeLeft lowTimeState = TIME_LIMIT
   \<and> int (length (replicate 9 exampleDraw)) = TIME_LIMIT - 1
   \<and> fold advanceTime (take 4 (replicate 9 exampleDraw)) lowTimeState
       = lowTimeState\<lparr>timeLeft := 6\<rparr>
   \<and> fold advanceTime (replicate 9 exampleDraw) lowTimeState = lowTimeState\<lparr>timeLeft := 1\<rparr>
   \<and> fold advanceTime (replicate 9 exampleDraw @ [exampleDraw]) lowTimeState =
       lowTimeState\<lparr>grid :=
         \<lparr>id_b = ''a'', value_b = 4, row = 8, col = 0\<rparr>
         # map (\<lambda>c. \<lparr>id_b = ''n'', value_b = 5, row = 9, col = c\<rparr>) [0, 1, 2, 3, 4, 5, 6]\<rparr>"
proof -
  have h1: "mode lowTimeState = Some Time"
    by (simp add: lowTimeState_def)
  have h2: "\<not> gameOver lowTimeState"
    by (simp add: lowTimeState_def lowState_def)
  have h3: "\<not> isPaused lowTimeState"
    by (simp add: lowTimeState_def lowState_def)
  have h4: "timeLeft lowTimeState = TIME_LIMIT"
    by (simp add: lowTimeState_def lowState_def)
  have h5: "int (length (replicate 9 exampleDraw)) = TIME_LIMIT - 1"
    by (simp add: TIME_LIMIT_def)
  note T = countdown_one_injection [OF h1 h2 h3 h4 h5, of exampleDraw]
  note B = T [THEN conjunct1, rule_format]
  have "fold advanceTime (take 4 (replicate 9 exampleDraw)) lowTimeState
       = lowTimeState\<lparr>timeLeft := TIME_LIMIT - int 4\<rparr>"
    by (rule B) simp
  then have a: "fold advanceTime (take 4 (replicate 9 exampleDraw)) lowTimeState
       = lowTimeState\<lparr>timeLeft := 6\<rparr>"
    by (simp add: TIME_LIMIT_def)
  have "fold advanceTime (take 9 (replicate 9 exampleDraw)) lowTimeState
       = lowTimeState\<lparr>timeLeft := TIME_LIMIT - int 9\<rparr>"
    by (rule B) simp
  then have b: "fold advanceTime (replicate 9 exampleDraw) lowTimeState
       = lowTimeState\<lparr>timeLeft := 1\<rparr>"
    by (simp add: TIME_LIMIT_def)
  have g: "grid lowTimeState = [bottomTile]"
    by (simp add: lowTimeState_def lowState_def)
  from T have "fold advanceTime (replicate 9 exampleDraw @ [exampleDraw]) lowTimeState =
             (if list_ex (\<lambda>b. row b = 0) (grid lowTimeState) then lowTimeState\<lparr>gameOver := True\<rparr>
              else lowTimeState\<lparr>grid := map shiftUp (grid lowTimeState)
                     @ createRow exampleDraw (GRID_ROWS - 1)\<rparr>)"
    by (elim conjE)
  then have c: "fold advanceTime (replicate 9 exampleDraw @ [exampleDraw]) lowTimeState =
       lowTimeState\<lparr>grid :=
         \<lparr>id_b = ''a'', value_b = 4, row = 8, col = 0\<rparr>
         # map (\<lambda>c. \<lparr>id_b = ''n'', value_b = 5, row = 9, col = c\<rparr>) [0, 1, 2, 3, 4, 5, 6]\<rparr>"
    unfolding g by (simp add: bottomTile_def shiftUp_def createRow_exampleDraw GRID_ROWS_def)
  from h1 h2 h3 h4 h5 a b c show ?thesis
    by (intro conjI)
qed

section \<open>Toggling a tile id\<close>

text \<open>
  C4, as stated: toggling an id that is in no tile of the grid changes nothing. The
  click handler never looks at the grid: in a running game with one tile \<open>a\<close> and nothing
  selected, toggling the id \<open>z\<close> puts it in the selection, and the evaluation that follows
  leaves it there.
\<close>

theorem toggle_absent_id_selects_it:
  "''z'' \<notin> id_b ` set (grid lowState)
   \<and> selectedIds lowState = []
   \<and> selectedIds (handleBlockClick ''z'' lowState) = [''z'']
   \<and> handleBlockClick ''z'' lowState \<noteq> lowState
   \<and> selectedIds (checkSum randomHalf exampleDraw (handleBlockClick ''z'' lowState)) = [''z'']"
  by (simp add: handleBlockClick_def checkSum_def currentSum_def lowState_def bottomTile_def)

text \<open>
  C4, amended: for an id that is in no tile of the grid, the toggle is a no-op exactly
  when the game is over or paused; otherwise it treats the id like any other, removing it
  from the selection when it is there and appending it when it is not. In every case the
  toggle changes nothing but the selection, and the sum that selection evaluation
  computes is the same before and after it.
\<close>

theorem toggle_absent_id:
  assumes "i \<notin> id_b ` set (grid s)"
  shows "handleBlockClick i s =
           s\<lparr>selectedIds :=
               (if gameOver s \<or> isPaused s then selectedIds s
                else if i \<in> set (selectedIds s) then filter (\<lambda>j. j \<noteq> i) (selectedIds s)
                else selectedIds s @ [i])\<rparr>
         \<and> currentSum (handleBlockClick i s) = currentSum s"
proof
  show eq: "handleBlockClick i s =
           s\<lparr>selectedIds :=
               (if gameOver s \<or> isPaused s then selectedIds s
                else if i \<in> set (selectedIds s) then filter (\<lambda>j. j \<noteq> i) (selectedIds s)
                else selectedIds s @ [i])\<rparr>"
    by (simp add: handleBlockClick_def)
  show "currentSum (handleBlockClick i s) = currentSum s"
  proof (rule currentSum_cong)
    show "grid (handleBlockClick i s) = grid s"
      by (simp add: eq)
  next
    fix b
    assume "b \<in> set (grid s)"
    with assms have "id_b b \<noteq> i"
      by auto
    then show "id_b b \<in> set (selectedIds (handleBlockClick i s)) \<longleftrightarrow> id_b b \<in> set (selectedIds s)"
      by (simp add: eq)
  qed
qed

theorem toggle_absent_id_witness:
  "''z'' \<notin> id_b ` set (grid exampleState)
   \<and> handleBlockClick ''z'' exampleState = exampleState\<lparr>selectedIds := [''a'', ''b'', ''z'']\<rparr>
   \<and> currentSum (handleBlockClick ''z'' exampleState) = 10
   \<and> ''z'' \<notin> id_b ` set (grid staleState)
   \<and> handleBlockClick ''z'' staleState = exampleState"
proof -
  have h1: "''z'' \<notin> id_b ` set (grid exampleState)"
    by (simp add: exampleState_def exampleGrid_def)
  have h2: "''z'' \<notin> id_b ` set (grid staleState)"
    by (simp add: staleState_def exampleState_def exampleGrid_def)
  note A = toggle_absent_id [OF h1]
  note B = toggle_absent_id [OF h2]
  have a: "handleBlockClick ''z'' exampleState = exampleState\<lparr>selectedIds := [''a'', ''b'', ''z'']\<rparr>"
    using A [THEN conjunct1] by (simp add: exampleState_def)
  have b: "currentSum (handleBlockClick ''z'' exampleState) = 10"
    using A [THEN conjunct2] by (simp add: currentSum_exampleState)
  have c: "handleBlockClick ''z'' staleState = exampleState"
    using B [THEN conjunct1] by (simp add: staleState_def exampleState_def)
  from h1 a b h2 c show ?thesis
    by (intro conjI)
qed

section \<open>The first evaluation\<close>

text \<open>
  C6 says that the empty selection, whose sum is 0, never equals the target. The state
  the component starts in has the target 0 and nothing selected, and the effect runs once
  after the first render: there the sum equals the target, the success branch is taken
  and a target is drawn, with no tile selected or removed.
\<close>

theorem first_evaluation_clears:
  "selectedIds initialState = []
   \<and> currentSum initialState = target initialState
   \<and> checkSum rT rnd initialState = initialState\<lparr>target := target (generateTarget rT initialState)\<rparr>
   \<and> checkSum rT rnd initialState \<noteq> initialState"
proof -
  have a: "selectedIds initialState = []"
    by (simp add: initialState_def)
  have b: "currentSum initialState = target initialState"
    by (simp add: currentSum_def initialState_def)
  have m: "mode initialState = None"
    by (simp add: initialState_def)
  have c: "checkSum rT rnd initialState =
             initialState\<lparr>target := target (generateTarget rT initialState)\<rparr>"
    using b m by (simp add: checkSum_clear clearSelected_eq) (simp add: initialState_def)
  have "target (checkSum rT rnd initialState) \<noteq> target initialState"
    unfolding c using target_generateTarget_pos [of rT initialState]
    by (simp add: initialState_def)
  then have d: "checkSum rT rnd initialState \<noteq> initialState"
    by auto
  from a b c d show ?thesis
    by (intro conjI)
qed

section \<open>The grid invariant\<close>

text \<open>
  C5. The invariant of the grid, that no two tiles have the same (row, column) and that
  every row index is between 0 and \<open>GRID_ROWS - 1\<close>, holds of the empty grid the program
  starts with and of the grid \<open>startGame\<close> builds, and every operation that finds it
  leaves it: the toggle of a tile id, selection evaluation, \<open>addRow\<close> and \<open>advanceTime\<close>.
\<close>

theorem grid_invariant_preserved:
  "gridInvariant (grid initialState)
   \<and> gridInvariant (grid (startGame rnds rT m s0))
   \<and> (gridInvariant (grid s) \<longrightarrow>
        gridInvariant (grid (handleBlockClick i s))
        \<and> gridInvariant (grid (checkSum rT rnd s))
        \<and> gridInvariant (grid (addRow rnd s))
        \<and> gridInvariant (grid (advanceTime rnd s)))"
proof (intro conjI impI)
  show "gridInvariant (grid initialState)"
    by (simp add: gridInvariant_def initialState_def)
  show "gridInvariant (grid (startGame rnds rT m s0))"
    by (rule gridInvariant_startGame)
next
  assume inv: "gridInvariant (grid s)"
  then show "gridInvariant (grid (handleBlockClick i s))"
    by (simp add: handleBlockClick_def)
  from inv show "gridInvariant (grid (checkSum rT rnd s))"
    by (rule gridInvariant_checkSum)
  from inv show "gridInvariant (grid (addRow rnd s))"
    by (rule gridInvariant_addRow)
  from inv show "gridInvariant (grid (advanceTime rnd s))"
    by (rule gridInvariant_advanceTime)
qed

theorem grid_invariant_preserved_witness:
  "gridInvariant (grid exampleState)
   \<and> gridInvariant (grid (startGame exampleRows randomHalf Classic initialState))
   \<and> length (grid (startGame exampleRows randomHalf Classic initialState)) = 28
   \<and> gridInvariant (grid (handleBlockClick ''c'' exampleState))
   \<and> gridInvariant (grid (checkSum randomHalf exampleDraw exampleState))
   \<and> length (grid (checkSum randomHalf exampleDraw exampleState)) = 8
   \<and> gridInvariant (grid (addRow exampleDraw exampleState))
   \<and> gridInvariant (grid (advanceTime exampleDraw exampleState))"
proof -
  have h: "gridInvariant (grid exampleState)"
    by (simp add: gridInvariant_def exampleState_def exampleGrid_def GRID_ROWS_def)
  note T = grid_invariant_preserved [of exampleRows randomHalf Classic initialState
      exampleState "''c''" exampleDraw]
  note P = T [THEN conjunct2, THEN conjunct2, rule_format, OF h]
  have a: "gridInvariant (grid (startGame exampleRows randomHalf Classic initialState))"
    by (rule T [THEN conjunct2, THEN conjunct1])
  have b: "length (grid (startGame exampleRows randomHalf Classic initialState)) = 28"
    by (simp add: grid_startGame length_createRow)
  have c: "gridInvariant (grid (handleBlockClick ''c'' exampleState))"
    by (rule P [THEN conjunct1])
  have d: "gridInvariant (grid (checkSum randomHalf exampleDraw exampleState))"
    by (rule P [THEN conjunct2, THEN conjunct1])
  have "currentSum exampleState = target exampleState"
    by (simp add: currentSum_exampleState) (simp add: exampleState_def)
  then have e: "length (grid (checkSum randomHalf exampleDraw exampleState)) = 8"
    by (simp add: checkSum_clear clearSelected_eq addRow_def Let_def length_createRow)
      (simp add: exampleState_def exampleGrid_def length_createRow)
  have f: "gridInvariant (grid (addRow exampleDraw exampleState))"
    by (rule P [THEN conjunct2, THEN conjunct2, THEN conjunct1])
  have g: "gridInvariant (grid (advanceTime exampleDraw exampleState))"
    by (rule P [THEN conjunct2, THEN conjunct2, THEN conjunct2])
  from h a b c d e f g show ?thesis
    by (intro conjI)
qed

section \<open>The high score at process start\<close>

text \<open>
  C9, as stated: a stored high score that is missing or corrupt leaves the high score at
  zero. A stored value that is there is not checked: the string \<open>abc\<close> is loaded as
  \<open>NaN\<close>, and the update effect, for which no score is greater than \<open>NaN\<close>, leaves it.
\<close>

theorem corrupt_high_score_stays_NaN:
  "highScore (snd (updateHighScore (Some ''abc'') (loadHighScore (Some ''abc'') initialState)))
     = NaN
   \<and> highScore (snd (updateHighScore (Some ''abc'') (loadHighScore (Some ''abc'') initialState)))
     \<noteq> Num 0"
  by (simp add: updateHighScore_def loadHighScore_def parseInt_def isWhiteSpace_def
      isRadixDigit_def digitValue_def)

text \<open>
  C9, amended: the high score starts at zero. After the load and the update effect that
  follows it (the score is 0), nothing has changed when no value or the empty string is
  stored. For any other stored string the outcome is decided by \<open>parseInt\<close>: a negative
  number is replaced, the high score is zero again and \<open>0\<close> is stored; a number that is not
  negative is the high score; \<open>NaN\<close> is the high score. \<open>NaN\<close> is what every string gives
  whose first character is neither white space, nor a sign, nor a decimal digit; a string
  of one to fifteen decimal digits gives a number that is not negative. A high score of
  \<open>NaN\<close> is left as it is by the update effect, whatever the score.
\<close>

theorem high_score_at_start:
  "highScore initialState = Num 0
   \<and> updateHighScore saved (loadHighScore saved initialState) =
       (case saved of
          None \<Rightarrow> (None, initialState)
        | Some u \<Rightarrow>
            if u = [] then (Some u, initialState)
            else (case parseInt u of
                    NaN \<Rightarrow> (Some u, initialState\<lparr>highScore := NaN\<rparr>)
                  | Num n \<Rightarrow> if n < 0 then (Some ''0'', initialState)
                             else (Some u, initialState\<lparr>highScore := Num n\<rparr>)))
   \<and> (\<not> isWhiteSpace c \<and> c \<noteq> CHR ''+'' \<and> c \<noteq> CHR ''-'' \<and> \<not> isRadixDigit 10 c \<longrightarrow>
        highScore (snd (updateHighScore (Some (c # w)) (loadHighScore (Some (c # w)) initialState)))
          = NaN)
   \<and> (v \<noteq> [] \<and> length v \<le> 15 \<and> list_all (\<lambda>c. c \<in> set ''0123456789'') v \<longrightarrow>
        (\<exists>n. 0 \<le> n
           \<and> highScore (snd (updateHighScore (Some v) (loadHighScore (Some v) initialState)))
               = Num n))
   \<and> (highScore s = NaN \<longrightarrow> updateHighScore stored s = (stored, s))"
proof -
  have a: "highScore initialState = Num 0"
    by (simp add: initialState_def)
  have b: "updateHighScore saved (loadHighScore saved initialState) =
       (case saved of
          None \<Rightarrow> (None, initialState)
        | Some u \<Rightarrow>
            if u = [] then (Some u, initialState)
            else (case parseInt u of
                    NaN \<Rightarrow> (Some u, initialState\<lparr>highScore := NaN\<rparr>)
                  | Num n \<Rightarrow> if n < 0 then (Some ''0'', initialState)
                             else (Some u, initialState\<lparr>highScore := Num n\<rparr>)))"
  proof (cases saved)
    case None
    then show ?thesis
      by (simp add: loadHighScore_def updateHighScore_def initialState_def)
  next
    case (Some u)
    show ?thesis
    proof (cases "u = []")
      case True
      with Some show ?thesis
        by (simp add: loadHighScore_def updateHighScore_def initialState_def)
    next
      case False
      with Some settle_loaded [OF False] show ?thesis
        by simp
    qed
  qed
  have c: "highScore (snd (updateHighScore (Some (c # w)) (loadHighScore (Some (c # w)) initialState)))
          = NaN"
    if "\<not> isWhiteSpace c \<and> c \<noteq> CHR ''+'' \<and> c \<noteq> CHR ''-'' \<and> \<not> isRadixDigit 10 c"
  proof -
    from that have "parseInt (c # w) = NaN"
      by (intro parseInt_no_number) simp_all
    then show ?thesis
      by (simp add: settle_loaded)
  qed
  have d: "\<exists>n. 0 \<le> n
           \<and> highScore (snd (updateHighScore (Some v) (loadHighScore (Some v) initialState)))
               = Num n"
    if "v \<noteq> [] \<and> length v \<le> 15 \<and> list_all (\<lambda>c. c \<in> set ''0123456789'') v"
  proof -
    from that have "\<exists>n. parseInt v = Num n \<and> 0 \<le> n"
      by (intro parseInt_decimal) simp_all
    then obtain n where n: "parseInt v = Num n" "0 \<le> n"
      by blast
    from that have "v \<noteq> []"
      by simp
    from settle_loaded [OF this] n
    have "highScore (snd (updateHighScore (Some v) (loadHighScore (Some v) initialState))) = Num n"
      by simp
    with n(2) show ?thesis
      by blast
  qed
  have e: "updateHighScore stored s = (stored, s)" if "highScore s = NaN"
    using that by (rule updateHighScore_NaN)
  show ?thesis
  proof (intro conjI impI)
    show "highScore initialState = Num 0" by (rule a)
    show "updateHighScore saved (loadHighScore saved initialState) =
       (case saved of
          None \<Rightarrow> (None, initialState)
        | Some u \<Rightarrow>
            if u = [] then (Some u, initialState)
            else (case parseInt u of
                    NaN \<Rightarrow> (Some u, initialState\<lparr>highScore := NaN\<rparr>)
                  | Num n \<Rightarrow> if n < 0 then (Some ''0'', initialState)
                             else (Some u, initialState\<lparr>highScore := Num n\<rparr>)))"
      by (rule b)
    show "highScore (snd (updateHighScore (Some (c # w)) (loadHighScore (Some (c # w)) initialState)))
          = NaN"
      if "\<not> isWhiteSpace c \<and> c \<noteq> CHR ''+'' \<and> c \<noteq> CHR ''-'' \<and> \<not> isRadixDigit 10 c"
      using that by (rule c)
    show "\<exists>n. 0 \<le> n
           \<and> highScore (snd (updateHighScore (Some v) (loadHighScore (Some v) initialState)))
               = Num n"
      if "v \<noteq> [] \<and> length v \<le> 15 \<and> list_all (\<lambda>c. c \<in> set ''0123456789'') v"
      using that by (rule d)
    show "updateHighScore stored s = (stored, s)" if "highScore s = NaN"
      using that by (rule e)
  qed
qed

theorem high_score_at_start_witness:
  "updateHighScore None (loadHighScore None initialState) = (None, initialState)
   \<and> updateHighScore (Some ''-5'') (loadHighScore (Some ''-5'') initialState)
       = (Some ''0'', initialState)
   \<and> \<not> isWhiteSpace CHR ''x'' \<and> CHR ''x'' \<noteq> CHR ''+'' \<and> CHR ''x'' \<noteq> CHR ''-''
   \<and> \<not> isRadixDigit 10 CHR ''x''
   \<and> highScore (snd (updateHighScore (Some ''x7'') (loadHighScore (Some ''x7'') initialState)))
       = NaN
   \<and> ''42'' \<noteq> [] \<and> length ''42'' \<le> 15 \<and> list_all (\<lambda>c. c \<in> set ''0123456789'') ''42''
   \<and> updateHighScore (Some ''42'') (loadHighScore (Some ''42'') initialState)
       = (Some ''42'', initialState\<lparr>highScore := Num 42\<rparr>)
   \<and> highScore (initialState\<lparr>highScore := NaN, score := 50\<rparr>) = NaN
   \<and> updateHighScore (Some ''x7'') (initialState\<lparr>highScore := NaN, score := 50\<rparr>)
       = (Some ''x7'', initialState\<lparr>highScore := NaN, score := 50\<rparr>)"
proof -
  have p5: "parseInt ''-5'' = Num (- 5)"
    by (simp add: parseInt_def isWhiteSpace_def isRadixDigit_def digitValue_def)
  have p42: "parseInt ''42'' = Num 42"
    by (simp add: parseInt_def isWhiteSpace_def isRadixDigit_def digitValue_def)
  have a: "updateHighScore None (loadHighScore None initialState) = (None, initialState)"
    using high_score_at_start [of None, THEN conjunct2, THEN conjunct1] by simp
  have b: "updateHighScore (Some ''-5'') (loadHighScore (Some ''-5'') initialState)
       = (Some ''0'', initialState)"
    using high_score_at_start [of "Some ''-5''", THEN conjunct2, THEN conjunct1]
    by (simp add: p5)
  have h1: "\<not> isWhiteSpace CHR ''x''"
    by (simp add: isWhiteSpace_def)
  have h2: "CHR ''x'' \<noteq> CHR ''+''" and h3: "CHR ''x'' \<noteq> CHR ''-''"
    by simp_all
  have h4: "\<not> isRadixDigit 10 CHR ''x''"
    by (simp add: isRadixDigit_def digitValue_def)
  from h1 h2 h3 h4
  have hx: "\<not> isWhiteSpace CHR ''x'' \<and> CHR ''x'' \<noteq> CHR ''+'' \<and> CHR ''x'' \<noteq> CHR ''-''
      \<and> \<not> isRadixDigit 10 CHR ''x''"
    by (intro conjI)
  have c: "highScore (snd (updateHighScore (Some ''x7'') (loadHighScore (Some ''x7'') initialState)))
       = NaN"
    by (rule high_score_at_start [of _ "CHR ''x''" "''7''", THEN conjunct2, THEN conjunct2,
          THEN conjunct1, rule_format, OF hx])
  have g1: "''42'' \<noteq> []" and g2: "length ''42'' \<le> 15"
    and g3: "list_all (\<lambda>c. c \<in> set ''0123456789'') ''42''"
    by simp_all
  have d: "updateHighScore (Some ''42'') (loadHighScore (Some ''42'') initialState)
       = (Some ''42'', initialState\<lparr>highScore := Num 42\<rparr>)"
    using high_score_at_start [of "Some ''42''", THEN conjunct2, THEN conjunct1]
    by (simp add: p42)
  have n: "highScore (initialState\<lparr>highScore := NaN, score := 50\<rparr>) = NaN"
    by simp
  have e: "updateHighScore (Some ''x7'') (initialState\<lparr>highScore := NaN, score := 50\<rparr>)
       = (Some ''x7'', initialState\<lparr>highScore := NaN, score := 50\<rparr>)"
    by (rule high_score_at_start [THEN conjunct2, THEN conjunct2, THEN conjunct2, THEN conjunct2,
          rule_format, OF n])
  from a b h1 h2 h3 h4 c g1 g2 g3 d n e show ?thesis
    by (intro conjI)
qed

end
